theory Spec2Isabelle
  imports Main "HOL-Library.Word"
begin

section \<open>The task graph supervisor of kit (main.go)\<close>

text \<open>
  The supervisor lives in one function, \<^verbatim>\<open>main\<close> of \<^verbatim>\<open>main.go\<close>: it builds a status
  table, seeds the leaves of the task graph on a work channel, and starts one runner per
  task delivered on that channel. The packages \<^verbatim>\<open>internal/types\<close>, \<^verbatim>\<open>internal/util\<close> and
  \<^verbatim>\<open>internal/proc\<close> and the file that declares \<^verbatim>\<open>backoff\<close> are not among the sources.
  What \<^verbatim>\<open>main.go\<close> reads from them is kept as data of a task (the value a method of
  \<^verbatim>\<open>types.Task\<close> returns), as an observation of the environment (what a blocking or
  file-system call returned), or, for the operations on the graph, as a definition that
  follows the specification and says so.
\<close>

subsection \<open>Data\<close>

text \<open>
  A \<^verbatim>\<open>types.Task\<close>, as far as \<^verbatim>\<open>main.go\<close> reads it. \<open>Name\<close>, \<open>Dependencies\<close>, \<open>Watch\<close>,
  \<open>Mutex\<close> and \<open>Semaphore\<close> are fields; the other components are the values of the methods
  \<^verbatim>\<open>IsBackground()\<close>, \<^verbatim>\<open>GetRestartPolicy()\<close>, \<^verbatim>\<open>IsRestart()\<close>, \<^verbatim>\<open>GetHostPorts()\<close>, and whether
  \<^verbatim>\<open>GetLivenessProbe()\<close> and \<^verbatim>\<open>GetReadinessProbe()\<close> are non-nil. \<^verbatim>\<open>Skip()\<close> looks at the
  file system, so it is an observation of the run loop and not a component.
\<close>

record task =
  Name :: string
  Dependencies :: "string list"
  Watch :: "string list"
  Mutex :: string
  Semaphore :: string
  IsBackground :: bool
  GetRestartPolicy :: string
  IsRestart :: bool
  GetHostPorts :: "nat list"
  HasLivenessProbe :: bool
  HasReadinessProbe :: bool

type_synonym tasks = "task list"

text \<open>
  Modelled from the spec: the \<^verbatim>\<open>backoff\<close> value and its successor are declared outside
  \<^verbatim>\<open>main.go\<close>. The specification gives an immutable value \<open>{duration, cap}\<close>, the default
  \<open>{duration = 1s, cap typically 60s}\<close> and the successor \<open>duration' = min(2 * duration, cap)\<close>.
  Durations are counted in seconds.
\<close>

record backoff =
  Duration :: nat
  Cap :: nat

definition defaultBackoff :: backoff where
  "defaultBackoff = \<lparr>Duration = 1, Cap = 60\<rparr>"

definition next_backoff :: "backoff \<Rightarrow> backoff" where
  "next_backoff b = b\<lparr>Duration := min (2 * Duration b) (Cap b)\<rparr>"

text \<open>The struct \<^verbatim>\<open>taskStatus\<close> (main.go, lines 41 to 44).\<close>

record taskStatus =
  reason :: string
  backoff :: backoff

text \<open>
  The status table is a \<^verbatim>\<open>sync.Map\<close> from task names to pointers to status records. A
  runner holds the pointer it loaded under its task's name, so a write through that pointer
  is a write to the table's entry for that name.
\<close>

type_synonym statuses = "string \<rightharpoonup> taskStatus"

text \<open>What can stop a goroutine by a panic.\<close>

datatype panic =
  NilStatus string
  | NoSuchTask string
  | WatchError

subsection \<open>Operations on the graph\<close>

text \<open>
  Modelled from the spec: \<^verbatim>\<open>Tasks.GetDownstream\<close> is not among the sources;
  \<open>downstream(name)\<close> returns the tasks whose dependencies include \<open>name\<close>, in the order
  of declaration.
\<close>

definition GetDownstream :: "tasks \<Rightarrow> string \<Rightarrow> tasks" where
  "GetDownstream ts name = filter (\<lambda>d. name \<in> set (Dependencies d)) ts"

text \<open>
  Modelled from the spec: \<^verbatim>\<open>Tasks.GetLeaves\<close> is not among the sources; \<open>leaves()\<close>
  returns the tasks with no dependencies within the graph.
\<close>

definition GetLeaves :: "tasks \<Rightarrow> tasks" where
  "GetLeaves ts = filter (\<lambda>t. list_all (\<lambda>u. u \<notin> set (map Name ts)) (Dependencies t)) ts"

text \<open>
  Modelled from the spec: \<^verbatim>\<open>Tasks.Get\<close> is not among the sources; \<open>get(name)\<close> is a direct
  lookup. What it does for a name that no task has is not described, so the lookup keeps
  that case apart.
\<close>

definition Get_task :: "tasks \<Rightarrow> string \<Rightarrow> task option" where
  "Get_task ts name = find (\<lambda>t. Name t = name) ts"

text \<open>
  Modelled from the spec: \<^verbatim>\<open>Tasks.All\<close> and \<^verbatim>\<open>Tasks.Any\<close> are not among the sources;
  \<open>all(pred)\<close> and \<open>any(pred)\<close> are the universal and the existential quantifier over the
  tasks of the graph.
\<close>

definition All_tasks :: "(task \<Rightarrow> bool) \<Rightarrow> tasks \<Rightarrow> bool" where
  "All_tasks p ts = list_all p ts"

definition Any_tasks :: "(task \<Rightarrow> bool) \<Rightarrow> tasks \<Rightarrow> bool" where
  "Any_tasks p ts = list_ex p ts"

subsection \<open>The status table at start-up (main.go, lines 108 to 117)\<close>

fun init_statuses :: "tasks \<Rightarrow> statuses \<Rightarrow> statuses" where
  "init_statuses [] st = st"
| "init_statuses (t # ts) st =
     init_statuses ts (st(Name t \<mapsto> \<lparr>reason = ''waiting'', backoff = defaultBackoff\<rparr>))"

subsection \<open>Downstream release (main.go, lines 217 to 237)\<close>

text \<open>
  The inner loop over \<open>downstream.Dependencies\<close>. The flag \<open>fulfilled\<close> starts at true.
  Go's \<open>&&\<close> and \<open>||\<close> evaluate from the left and stop early, so \<^verbatim>\<open>tasks.Get(upstream)\<close> is
  called only when the flag is still true and the reason is \<open>running\<close>.
\<close>

fun fulfilled_loop :: "tasks \<Rightarrow> statuses \<Rightarrow> bool \<Rightarrow> string list \<Rightarrow> panic + bool" where
  "fulfilled_loop ts st fulfilled [] = Inr fulfilled"
| "fulfilled_loop ts st fulfilled (upstream # us) =
     (case st upstream of
        None \<Rightarrow> fulfilled_loop ts st False us
      | Some status \<Rightarrow>
          if \<not> fulfilled then fulfilled_loop ts st False us
          else if reason status = ''success'' then fulfilled_loop ts st True us
          else if reason status = ''running'' then
            (case Get_task ts upstream of
               None \<Rightarrow> Inl (NoSuchTask upstream)
             | Some u \<Rightarrow> fulfilled_loop ts st (IsBackground u) us)
          else fulfilled_loop ts st False us)"

text \<open>
  The outer loop over \<^verbatim>\<open>tasks.GetDownstream(name)\<close>. The result is the list of the tasks
  sent on the work channel, in the order of the sends, and the panic that ended the loop
  early, if one did.
\<close>

fun release_loop :: "tasks \<Rightarrow> statuses \<Rightarrow> task list \<Rightarrow> task list \<times> panic option" where
  "release_loop ts st [] = ([], None)"
| "release_loop ts st (downstream # ds) =
     (case fulfilled_loop ts st True (Dependencies downstream) of
        Inl p \<Rightarrow> ([], Some p)
      | Inr fulfilled \<Rightarrow>
          (let (sent, p) = release_loop ts st ds
           in (if fulfilled then downstream # sent else sent, p)))"

text \<open>
  \<open>ctx_done\<close> says whether the channel \<^verbatim>\<open>ctx.Done()\<close> of the root context is closed when the
  \<^verbatim>\<open>select\<close> is evaluated; with a closed channel the \<^verbatim>\<open>default\<close> branch is not taken.
\<close>

definition maybeStartDownstream ::
  "bool \<Rightarrow> tasks \<Rightarrow> statuses \<Rightarrow> string \<Rightarrow> task list \<times> panic option" where
  "maybeStartDownstream ctx_done ts st name =
     (if ctx_done then ([], None) else release_loop ts st (GetDownstream ts name))"

text \<open>
  An upstream lets its downstream start when it has a status record whose reason is
  \<open>success\<close>, or whose reason is \<open>running\<close> while the upstream is a background task.
\<close>

definition upstream_ok :: "tasks \<Rightarrow> statuses \<Rightarrow> string \<Rightarrow> bool" where
  "upstream_ok ts st u =
     (case st u of
        None \<Rightarrow> False
      | Some status \<Rightarrow>
          reason status = ''success'' \<or>
          reason status = ''running'' \<and>
            (case Get_task ts u of None \<Rightarrow> False | Some t \<Rightarrow> IsBackground t))"

subsection \<open>The termination predicates (main.go, lines 239 to 264)\<close>

text \<open>
  The two closures passed to \<^verbatim>\<open>tasks.All\<close> and \<^verbatim>\<open>tasks.Any\<close>. A task without a status
  record makes either closure return false.
\<close>

definition allComplete :: "tasks \<Rightarrow> statuses \<Rightarrow> bool" where
  "allComplete ts st =
     All_tasks (\<lambda>task.
       case st (Name task) of
         Some status \<Rightarrow>
           \<not> IsBackground task \<and> (reason status = ''success'' \<or> reason status = ''error'')
       | None \<Rightarrow> False) ts"

definition anyError :: "tasks \<Rightarrow> statuses \<Rightarrow> bool" where
  "anyError ts st =
     Any_tasks (\<lambda>task.
       case st (Name task) of
         Some status \<Rightarrow> GetRestartPolicy task = ''Never'' \<and> reason status = ''error''
       | None \<Rightarrow> False) ts"

text \<open>One round of the loop calls \<^verbatim>\<open>stopEverything()\<close> exactly when this holds.\<close>

definition termination_check :: "tasks \<Rightarrow> statuses \<Rightarrow> bool" where
  "termination_check ts st = (allComplete ts st \<or> anyError ts st)"

text \<open>
  The predicate in the words of the specification: every task that is not a background
  task has a reason among \<open>success\<close> and \<open>error\<close>.
\<close>

definition spec_allComplete :: "tasks \<Rightarrow> statuses \<Rightarrow> bool" where
  "spec_allComplete ts st =
     list_all (\<lambda>task.
       IsBackground task \<or>
       (case st (Name task) of
          Some status \<Rightarrow> reason status = ''success'' \<or> reason status = ''error''
        | None \<Rightarrow> False)) ts"

subsection \<open>Start-up checks and the final scan (main.go, lines 69 to 95 and 470 to 483)\<close>

text \<open>
  What reading and parsing the configuration file gave: \<^verbatim>\<open>os.ReadFile\<close> failed,
  \<^verbatim>\<open>yaml.UnmarshalStrict\<close> failed, or a pod was read, of which the checks look at three
  strings.
\<close>

record pod =
  ApiVersion :: string
  Kind :: string
  MetadataName :: string







section \<open>The goroutines as a transition system\<close>

text \<open>
  The supervisor is concurrent: the dispatch loop, one runner and one watcher per delivered
  task, the probe loops, the goroutine of the termination predicates and the goroutine that
  closes the work channel all run side by side over shared tables. The model gives each
  goroutine a program counter and cuts its code at the points where it can block or be
  overtaken; a schedule chooses which goroutine takes the next step and what the
  environment answers (what \<^verbatim>\<open>Skip()\<close> saw, how the child process ended, which file-system
  event arrived, how much time went by).

  A step runs in one piece and reads the shared tables as they are when it starts. A send
  on the unbuffered work channel is recorded as pending and the sender finishes its step,
  whereas in the program the sender is held until the dispatch loop has received the
  task; pending sends are received in any order. A send that is still pending when the
  channel is closed stays pending.
\<close>

subsection \<open>State\<close>

text \<open>
  An error of the inner function of the run loop is either one for which
  \<^verbatim>\<open>errors.Is(err, context.Canceled)\<close> holds, or another one.
\<close>

datatype err = Canceled | Failed

text \<open>
  Where a runner stands: before the preempt step (line 347), at \<^verbatim>\<open>mutex.Lock()\<close> (line
  357), at \<^verbatim>\<open>semaphore.Acquire\<close> (line 365), at the head of the run loop (line 378), inside
  \<^verbatim>\<open>prc.Run\<close> (line 440), at the tail of the loop (line 462), or returned.
\<close>

datatype pc = Preempt | LockMutex | AcquireSemaphore | LoopHead | Running | LoopTail | Exited

text \<open>
  A runner has its task, the per-process context made for it by the dispatch loop (a token:
  the context is done when its cancel function was called or the root context is done), its
  program counter, and the deferred \<^verbatim>\<open>mutex.Unlock()\<close> and \<^verbatim>\<open>semaphore.Release(1)\<close> it has
  registered so far.
\<close>

record runner =
  rtask :: task
  rtoken :: nat
  rpc :: pc
  unlock_deferred :: bool
  release_deferred :: bool

text \<open>
  A watcher has its task, the same per-process context, and its timer: the time at which
  the timer will fire, or nothing when the timer has fired or was stopped.
\<close>

record watcher =
  wtask :: task
  wtoken :: nat
  deadline :: "nat option"
  wreturned :: bool

text \<open>What the trace records: a child process was started by a runner, a runner slept.\<close>

datatype event = ProcessStarted nat | Slept nat nat

text \<open>
  The shared state. \<open>work\<close> holds the sends on the unbuffered work channel that have not
  been received yet; \<open>stop\<close> is the table of cancel functions by task name; \<open>cancelled\<close>
  lists the tokens whose cancel function was called; \<open>root_done\<close> says that the root context
  is done. \<open>locked\<close> lists the named mutexes that are held, \<open>permits\<close> counts the free
  permits of each named semaphore. \<open>trace\<close> and \<open>panics\<close> record what happened, \<open>main_panic\<close>
  is the panic of the main goroutine, if it has panicked.
\<close>

record world =
  statuses :: statuses
  stop :: "string \<rightharpoonup> nat"
  cancelled :: "nat list"
  root_done :: bool
  terminating :: bool
  closed :: bool
  noWatch :: bool
  work :: "task list"
  locked :: "string list"
  permits :: "string \<Rightarrow> nat"
  runners :: "runner list"
  watchers :: "watcher list"
  now :: nat
  trace :: "event list"
  panics :: "panic list"
  main_panic :: "panic option"

text \<open>
  What the environment answers to a step of a runner: the value of \<^verbatim>\<open>t.Skip()\<close>, the error
  of \<^verbatim>\<open>prc.Reset\<close>, the first error of \<^verbatim>\<open>isPortFree\<close> over the host ports, and the error of
  \<^verbatim>\<open>prc.Run\<close>.
\<close>

record obs =
  skip :: bool
  reset_err :: "err option"
  port_err :: "err option"
  run_err :: "err option"

subsection \<open>Helpers\<close>

definition process_done :: "world \<Rightarrow> nat \<Rightarrow> bool" where
  "process_done w tok = (root_done w \<or> tok \<in> set (cancelled w))"

definition upd_runner :: "nat \<Rightarrow> (runner \<Rightarrow> runner) \<Rightarrow> world \<Rightarrow> world" where
  "upd_runner i f w = w\<lparr>runners := (runners w)[i := f (runners w ! i)]\<rparr>"

definition set_pc :: "nat \<Rightarrow> pc \<Rightarrow> world \<Rightarrow> world" where
  "set_pc i c w = upd_runner i (\<lambda>r. r\<lparr>rpc := c\<rparr>) w"

text \<open>A write through the pointer to the status record stored under \<open>name\<close>.\<close>

definition upd_status :: "string \<Rightarrow> (taskStatus \<Rightarrow> taskStatus) \<Rightarrow> world \<Rightarrow> world" where
  "upd_status name f w =
     (case statuses w name of
        None \<Rightarrow> w
      | Some status \<Rightarrow> w\<lparr>statuses := (statuses w)(name \<mapsto> f status)\<rparr>)"

definition set_reason :: "string \<Rightarrow> string \<Rightarrow> world \<Rightarrow> world" where
  "set_reason name r w = upd_status name (\<lambda>status. status\<lparr>reason := r\<rparr>) w"

text \<open>
  Modelled from the spec: the named mutexes of \<^verbatim>\<open>internal/util\<close> are not among the
  sources; a named mutex enforces mutual exclusion across the tasks that share its label.
  \<^verbatim>\<open>Lock()\<close> takes no argument and has no result in \<^verbatim>\<open>main.go\<close>: it returns with the mutex
  held, and until then the caller waits (\<open>None\<close>).
\<close>

definition mutex_Lock :: "string \<Rightarrow> world \<Rightarrow> world option" where
  "mutex_Lock m w = (if m \<in> set (locked w) then None else Some (w\<lparr>locked := m # locked w\<rparr>))"

definition mutex_Unlock :: "string \<Rightarrow> world \<Rightarrow> world" where
  "mutex_Unlock m w = w\<lparr>locked := remove1 m (locked w)\<rparr>"

text \<open>
  Modelled from the spec: the named semaphores of \<^verbatim>\<open>internal/util\<close> are not among the
  sources; a named semaphore bounds the parallelism of the tasks that share its label by
  its capacity, and acquisition is cancellable: if the root token is tripped while
  waiting, acquisition returns failure. \<^verbatim>\<open>Acquire(ctx, 1)\<close> is called with the root context.
\<close>

datatype acquired = Acquired world | AcquireFailed | AcquireWaits

definition semaphore_Acquire :: "string \<Rightarrow> world \<Rightarrow> acquired" where
  "semaphore_Acquire s w =
     (if 0 < permits w s then Acquired (w\<lparr>permits := (permits w)(s := permits w s - 1)\<rparr>)
      else if root_done w then AcquireFailed
      else AcquireWaits)"

definition semaphore_Release :: "string \<Rightarrow> world \<Rightarrow> world" where
  "semaphore_Release s w = w\<lparr>permits := (permits w)(s := permits w s + 1)\<rparr>"

text \<open>
  A runner returns: its deferred calls run, \<^verbatim>\<open>semaphore.Release(1)\<close> and
  \<^verbatim>\<open>mutex.Unlock()\<close> if they were registered.
\<close>

definition runner_exit :: "nat \<Rightarrow> world \<Rightarrow> world" where
  "runner_exit i w =
     (let r = runners w ! i;
          t = rtask r;
          w1 = (if release_deferred r then semaphore_Release (Semaphore t) w else w);
          w2 = (if unlock_deferred r then mutex_Unlock (Mutex t) w1 else w1)
      in upd_runner i (\<lambda>r. r\<lparr>rpc := Exited, unlock_deferred := False, release_deferred := False\<rparr>) w2)"

text \<open>\<^verbatim>\<open>handleCrash\<close>: the panic is recovered and printed, and \<^verbatim>\<open>stopEverything()\<close> is called.\<close>

definition handleCrash :: "panic \<Rightarrow> world \<Rightarrow> world" where
  "handleCrash p w = w\<lparr>root_done := True, panics := panics w @ [p]\<rparr>"

text \<open>
  A call of \<^verbatim>\<open>maybeStartDownstream(name)\<close> on the shared state: the tasks it sends become
  pending sends of the work channel. The second component is the panic, if any.
\<close>

definition release :: "tasks \<Rightarrow> string \<Rightarrow> world \<Rightarrow> world \<times> panic option" where
  "release ts name w =
     (let (sent, p) = maybeStartDownstream (root_done w) ts (statuses w) name
      in (w\<lparr>work := work w @ sent\<rparr>, p))"

subsection \<open>The steps of a runner (main.go, lines 343 to 467)\<close>

text \<open>
  Preempt (lines 347 to 352): if a cancel function is stored under the task's name it is
  called; then the runner's own cancel function is stored under that name.
\<close>

definition preempt_step :: "nat \<Rightarrow> world \<Rightarrow> world" where
  "preempt_step i w =
     (let r = runners w ! i;
          name = Name (rtask r);
          w1 = (case stop w name of
                  Some f \<Rightarrow> w\<lparr>cancelled := cancelled w @ [f]\<rparr>
                | None \<Rightarrow> w)
      in set_pc i LockMutex (w1\<lparr>stop := (stop w1)(name \<mapsto> rtoken r)\<rparr>))"

text \<open>
  The mutex (lines 354 to 360): while \<^verbatim>\<open>mutex.Lock()\<close> has not returned the runner stays
  where it is; when it has, \<^verbatim>\<open>mutex.Unlock()\<close> is deferred.
\<close>

definition lock_step :: "nat \<Rightarrow> world \<Rightarrow> world" where
  "lock_step i w =
     (let m = Mutex (rtask (runners w ! i))
      in if m = [] then set_pc i AcquireSemaphore w
         else case mutex_Lock m w of
                None \<Rightarrow> w
              | Some w1 \<Rightarrow>
                  upd_runner i (\<lambda>r. r\<lparr>rpc := AcquireSemaphore, unlock_deferred := True\<rparr>) w1)"

text \<open>
  The semaphore (lines 362 to 370): when \<^verbatim>\<open>semaphore.Acquire(ctx, 1)\<close> returns an error the
  runner returns; when it returns nil, \<^verbatim>\<open>semaphore.Release(1)\<close> is deferred.
\<close>

definition acquire_step :: "nat \<Rightarrow> world \<Rightarrow> world" where
  "acquire_step i w =
     (let s = Semaphore (rtask (runners w ! i))
      in if s = [] then set_pc i LoopHead w
         else case semaphore_Acquire s w of
                Acquired w1 \<Rightarrow>
                  upd_runner i (\<lambda>r. r\<lparr>rpc := LoopHead, release_deferred := True\<rparr>) w1
              | AcquireFailed \<Rightarrow> runner_exit i w
              | AcquireWaits \<Rightarrow> w)"

text \<open>The restart decision (lines 458 to 460).\<close>

definition restart_decision :: "nat \<Rightarrow> world \<Rightarrow> world" where
  "restart_decision i w =
     (if GetRestartPolicy (rtask (runners w ! i)) = ''Never'' then runner_exit i w
      else set_pc i LoopTail w)"

text \<open>
  The classification of the error \<open>e\<close> that the inner function returned (lines 443 to 457),
  followed by the restart decision.
\<close>

definition post_run :: "tasks \<Rightarrow> err option \<Rightarrow> nat \<Rightarrow> world \<Rightarrow> world" where
  "post_run ts e i w =
     (let t = rtask (runners w ! i);
          name = Name t
      in case e of
           Some Canceled \<Rightarrow> runner_exit i w
         | Some Failed \<Rightarrow>
             restart_decision i
               (upd_status name (\<lambda>status. status\<lparr>backoff := next_backoff (backoff status)\<rparr>)
                  (set_reason name ''error'' w))
         | None \<Rightarrow>
             (let w1 = upd_status name (\<lambda>status. status\<lparr>backoff := defaultBackoff\<rparr>)
                         (set_reason name ''success'' w);
                  (w2, p) = release ts name w1
              in case p of
                   Some x \<Rightarrow> runner_exit i (handleCrash x w2)
                 | None \<Rightarrow>
                     if \<not> IsRestart t then runner_exit i w2 else restart_decision i w2))"

text \<open>
  One turn of the run loop from its head (lines 378 to 440), up to the call of \<^verbatim>\<open>prc.Run\<close>.
  In Go a \<^verbatim>\<open>break\<close> inside a \<^verbatim>\<open>select\<close> ends the \<^verbatim>\<open>select\<close>, not the \<^verbatim>\<open>for\<close> around it: after
  the skip branch the runner is at the tail of the loop. The table \<^verbatim>\<open>stopRuns\<close> is written
  here and read nowhere in \<^verbatim>\<open>main.go\<close>; it is left out. A liveness probe only cancels the
  context of the run, which shows as the error that \<^verbatim>\<open>prc.Run\<close> returns.
\<close>

definition loop_step :: "tasks \<Rightarrow> obs \<Rightarrow> nat \<Rightarrow> world \<Rightarrow> world" where
  "loop_step ts ob i w =
     (let r = runners w ! i;
          t = rtask r;
          name = Name t
      in if process_done w (rtoken r) then runner_exit i w
         else if skip ob then
           (let (w1, p) = release ts name (set_reason name ''success'' w)
            in case p of
                 Some x \<Rightarrow> runner_exit i (handleCrash x w1)
               | None \<Rightarrow> set_pc i LoopTail w1)
         else
           (let w1 = set_reason name ''starting'' w
            in case reset_err ob of
                 Some e \<Rightarrow> post_run ts (Some e) i w1
               | None \<Rightarrow>
                   if GetHostPorts t \<noteq> [] \<and> port_err ob \<noteq> None
                   then post_run ts (port_err ob) i w1
                   else
                     (let w2 = (if HasReadinessProbe t then set_reason name ''starting'' w1
                                else set_reason name ''running'' w1)
                      in set_pc i Running (w2\<lparr>trace := trace w2 @ [ProcessStarted i]\<rparr>))))"

text \<open>
  The tail of the loop (lines 462 to 465): unless the supervisor is terminating the runner
  sleeps for the duration of its backoff; then the loop starts again.
\<close>

definition tail_step :: "nat \<Rightarrow> world \<Rightarrow> world" where
  "tail_step i w =
     (let name = Name (rtask (runners w ! i));
          w1 = (if \<not> terminating w
                then (case statuses w name of
                        Some status \<Rightarrow> w\<lparr>trace := trace w @ [Slept i (Duration (backoff status))]\<rparr>
                      | None \<Rightarrow> w)
                else w)
      in set_pc i LoopHead w1)"

definition runner_step :: "tasks \<Rightarrow> obs \<Rightarrow> nat \<Rightarrow> world \<Rightarrow> world" where
  "runner_step ts ob i w =
     (if length (runners w) \<le> i then w
      else case rpc (runners w ! i) of
             Preempt \<Rightarrow> preempt_step i w
           | LockMutex \<Rightarrow> lock_step i w
           | AcquireSemaphore \<Rightarrow> acquire_step i w
           | LoopHead \<Rightarrow> loop_step ts ob i w
           | Running \<Rightarrow> post_run ts (run_err ob) i w
           | LoopTail \<Rightarrow> tail_step i w
           | Exited \<Rightarrow> w)"

text \<open>
  The callback of the readiness probe (lines 419 to 428), called by the probe loop while
  the process runs. A panic in it is recovered by the probe loop's goroutine.
\<close>

definition ready_step :: "tasks \<Rightarrow> bool \<Rightarrow> nat \<Rightarrow> world \<Rightarrow> world" where
  "ready_step ts ready i w =
     (if length (runners w) \<le> i then w
      else
        (let r = runners w ! i;
             name = Name (rtask r)
         in if rpc r = Running \<and> HasReadinessProbe (rtask r) then
              (if ready then
                 (let (w1, p) = release ts name (set_reason name ''running'' w)
                  in case p of Some x \<Rightarrow> handleCrash x w1 | None \<Rightarrow> w1)
               else set_reason name ''error'' w)
            else w))"

subsection \<open>The dispatch loop (main.go, lines 266 to 343)\<close>

text \<open>
  The timer of a watcher is created to fire after \<^verbatim>\<open>100*365*24*time.Hour\<close>; in seconds:
\<close>

definition never :: nat where
  "never = 100 * 365 * 24 * 3600"

text \<open>
  One turn of \<^verbatim>\<open>for t := range work\<close>: a pending send is received, the status record is
  loaded under the task's name and asserted to be a \<^verbatim>\<open>*taskStatus\<close>, which panics in the main
  goroutine when nothing is stored; then a per-process context is made, a watcher is
  started unless \<open>noWatch\<close> is set, and a runner is started. A closed channel delivers
  nothing.
\<close>

definition dispatch :: "nat \<Rightarrow> world \<Rightarrow> world" where
  "dispatch k w =
     (if closed w \<or> length (work w) \<le> k then w
      else
        (let t = work w ! k;
             w1 = w\<lparr>work := take k (work w) @ drop (Suc k) (work w)\<rparr>
         in case statuses w1 (Name t) of
              None \<Rightarrow> w1\<lparr>main_panic := Some (NilStatus (Name t))\<rparr>
            | Some status \<Rightarrow>
                (let tok = length (runners w1);
                     w2 = (if noWatch w1 then w1
                           else w1\<lparr>watchers := watchers w1 @
                                  [\<lparr>wtask = t, wtoken = tok,
                                    deadline = Some (now w1 + never), wreturned = False\<rparr>]\<rparr>)
                 in w2\<lparr>runners := runners w2 @
                         [\<lparr>rtask = t, rtoken = tok, rpc = Preempt,
                           unlock_deferred = False, release_deferred = False\<rparr>]\<rparr>)))"

subsection \<open>The watcher (main.go, lines 288 to 338)\<close>


definition Chmod :: "32 word" where
  "Chmod = push_bit 4 1"

definition upd_watcher :: "nat \<Rightarrow> (watcher \<Rightarrow> watcher) \<Rightarrow> world \<Rightarrow> world" where
  "upd_watcher j f w = w\<lparr>watchers := (watchers w)[j := f (watchers w ! j)]\<rparr>"

text \<open>
  The case \<^verbatim>\<open>e := <-watcher.Events\<close> (lines 328 to 333): \<^verbatim>\<open>timer.Reset(time.Second)\<close> unless
  the operation is exactly \<open>Chmod\<close>.
\<close>

definition watch_event :: "32 word \<Rightarrow> nat \<Rightarrow> world \<Rightarrow> world" where
  "watch_event op j w =
     (if length (watchers w) \<le> j \<or> wreturned (watchers w ! j) then w
      else if op \<noteq> Chmod then upd_watcher j (\<lambda>x. x\<lparr>deadline := Some (now w + 1)\<rparr>) w
      else w)"

text \<open>
  The case \<^verbatim>\<open><-processCtx.Done()\<close> (lines 326 and 327): the watcher returns and the deferred
  \<^verbatim>\<open>timer.Stop()\<close> runs.
\<close>

definition watch_done :: "nat \<Rightarrow> world \<Rightarrow> world" where
  "watch_done j w =
     (if length (watchers w) \<le> j \<or> wreturned (watchers w ! j) then w
      else if process_done w (wtoken (watchers w ! j))
      then upd_watcher j (\<lambda>x. x\<lparr>deadline := None, wreturned := True\<rparr>) w
      else w)"

text \<open>
  A panic of the watcher (a path that cannot be watched, an error of the watcher): it is
  recovered by \<^verbatim>\<open>handleCrash\<close>, and the watcher is gone.
\<close>

definition watch_crash :: "nat \<Rightarrow> world \<Rightarrow> world" where
  "watch_crash j w =
     (if length (watchers w) \<le> j \<or> wreturned (watchers w ! j) then w
      else handleCrash WatchError (upd_watcher j (\<lambda>x. x\<lparr>deadline := None, wreturned := True\<rparr>) w))"

text \<open>
  The timer fires (lines 319 to 321): its function sends the watcher's task on the work
  channel. A timer that has fired stays idle until it is reset.
\<close>

definition timer_fire :: "nat \<Rightarrow> world \<Rightarrow> world" where
  "timer_fire j w =
     (if length (watchers w) \<le> j then w
      else case deadline (watchers w ! j) of
             None \<Rightarrow> w
           | Some d \<Rightarrow>
               if d \<le> now w
               then (upd_watcher j (\<lambda>x. x\<lparr>deadline := None\<rparr>) w)
                      \<lparr>work := work w @ [wtask (watchers w ! j)]\<rparr>
               else w)"

subsection \<open>The supervisor's own goroutines\<close>

text \<open>One round of the termination predicates (lines 239 to 264).\<close>

definition check_step :: "tasks \<Rightarrow> world \<Rightarrow> world" where
  "check_step ts w = (if termination_check ts (statuses w) then w\<lparr>root_done := True\<rparr> else w)"

text \<open>
  The goroutine of lines 206 to 211: once the root context is done it sets \<open>terminating\<close>
  and closes the work channel.
\<close>

definition shutdown_step :: "world \<Rightarrow> world" where
  "shutdown_step w = (if root_done w then w\<lparr>terminating := True, closed := True\<rparr> else w)"

subsection \<open>Schedules\<close>

datatype action =
  Dispatch nat
  | Runner nat obs
  | Ready nat bool
  | FsEvent nat "32 word"
  | WatchDone nat
  | WatchCrash nat
  | TimerFire nat
  | Tick nat
  | Check
  | Signal
  | Shutdown

text \<open>
  A panic of the main goroutine is not recovered: the process is gone and nothing moves
  any more. \<open>Signal\<close> is an interrupt of the operating system, which makes the root context
  done; \<open>Tick d\<close> lets \<open>d\<close> seconds pass.
\<close>

definition step :: "tasks \<Rightarrow> action \<Rightarrow> world \<Rightarrow> world" where
  "step ts a w =
     (if main_panic w \<noteq> None then w
      else case a of
             Dispatch k \<Rightarrow> dispatch k w
           | Runner i ob \<Rightarrow> runner_step ts ob i w
           | Ready i b \<Rightarrow> ready_step ts b i w
           | FsEvent j op \<Rightarrow> watch_event op j w
           | WatchDone j \<Rightarrow> watch_done j w
           | WatchCrash j \<Rightarrow> watch_crash j w
           | TimerFire j \<Rightarrow> timer_fire j w
           | Tick d \<Rightarrow> w\<lparr>now := now w + d\<rparr>
           | Check \<Rightarrow> check_step ts w
           | Signal \<Rightarrow> w\<lparr>root_done := True\<rparr>
           | Shutdown \<Rightarrow> shutdown_step w)"

fun exec :: "tasks \<Rightarrow> action list \<Rightarrow> world \<Rightarrow> world" where
  "exec ts [] w = w"
| "exec ts (a # as) w = exec ts as (step ts a w)"

text \<open>
  The state when the dispatch loop starts: every task of the graph has a status record
  (lines 108 to 117), the leaves are being sent (lines 199 to 204), nothing else has
  happened. \<open>nw\<close> is the flag \<open>noWatch\<close>, \<open>sem\<close> gives the capacity of each semaphore.
\<close>

definition init_world :: "tasks \<Rightarrow> bool \<Rightarrow> (string \<Rightarrow> nat) \<Rightarrow> world" where
  "init_world ts nw sem =
     \<lparr>statuses = init_statuses ts Map.empty, stop = Map.empty, cancelled = [],
      root_done = False, terminating = False, closed = False, noWatch = nw,
      work = GetLeaves ts, locked = [], permits = sem, runners = [], watchers = [],
      now = 0, trace = [], panics = [], main_panic = None\<rparr>"

subsection \<open>An invariant of the schedules\<close>

text \<open>
  Every pending send, every runner and every watcher carries a task of the graph, every
  task of the graph has a status record, and the main goroutine has not panicked.
\<close>

definition inv :: "tasks \<Rightarrow> world \<Rightarrow> bool" where
  "inv ts w =
     (list_all (\<lambda>t. t \<in> set ts) (work w) \<and>
      list_all (\<lambda>t. statuses w (Name t) \<noteq> None) ts \<and>
      list_all (\<lambda>r. rtask r \<in> set ts) (runners w) \<and>
      list_all (\<lambda>x. wtask x \<in> set ts) (watchers w) \<and>
      main_panic w = None)"

section \<open>Example graphs\<close>

text \<open>A job that is not restarted, and a service that is.\<close>

definition job :: "string \<Rightarrow> string list \<Rightarrow> task" where
  "job n deps =
     \<lparr>Name = n, Dependencies = deps, Watch = [], Mutex = [], Semaphore = [],
      IsBackground = False, GetRestartPolicy = ''Never'', IsRestart = False,
      GetHostPorts = [], HasLivenessProbe = False, HasReadinessProbe = False\<rparr>"

definition service :: "string \<Rightarrow> string list \<Rightarrow> task" where
  "service n deps =
     \<lparr>Name = n, Dependencies = deps, Watch = [], Mutex = [], Semaphore = [],
      IsBackground = True, GetRestartPolicy = ''Always'', IsRestart = True,
      GetHostPorts = [], HasLivenessProbe = False, HasReadinessProbe = False\<rparr>"

definition status_of :: "string \<Rightarrow> taskStatus" where
  "status_of r = \<lparr>reason = r, backoff = defaultBackoff\<rparr>"

text \<open>The environment of a step in which nothing is skipped and nothing fails.\<close>

definition quiet :: obs where
  "quiet = \<lparr>skip = False, reset_err = None, port_err = None, run_err = None\<rparr>"

text \<open>A chain: \<open>b\<close> depends on \<open>a\<close>.\<close>

definition chain :: tasks where
  "chain = [job ''a'' [], job ''b'' [''a'']]"

text \<open>A service next to a job.\<close>

definition mixed :: tasks where
  "mixed = [service ''db'' [], job ''build'' []]"

text \<open>Two jobs under one mutex.\<close>

definition contended :: tasks where
  "contended = [(job ''x'' [])\<lparr>Mutex := ''m''\<rparr>, (job ''y'' [])\<lparr>Mutex := ''m''\<rparr>]"

text \<open>A job with a watched file.\<close>

definition watched :: tasks where
  "watched = [(job ''app'' [])\<lparr>Watch := [''main.go'']\<rparr>]"

text \<open>Two jobs under one semaphore.\<close>

definition limited :: tasks where
  "limited = [(job ''x'' [])\<lparr>Semaphore := ''s''\<rparr>, (job ''y'' [])\<lparr>Semaphore := ''s''\<rparr>]"

text \<open>A configuration that passes the start-up checks.\<close>

definition good_pod :: pod where
  "good_pod = \<lparr>ApiVersion = ''kit/v1'', Kind = ''Tasks'', MetadataName = ''demo''\<rparr>"

text \<open>
  The chain, watching switched off: \<open>a\<close> is delivered, its runner passes the preempt step
  and the two gates, and at the head of the loop \<^verbatim>\<open>Skip()\<close> returns true.
\<close>

definition skipped_run :: world where
  "skipped_run =
     exec chain [Dispatch 0, Runner 0 quiet, Runner 0 quiet, Runner 0 quiet,
       Runner 0 (quiet\<lparr>skip := True\<rparr>)] (init_world chain True (\<lambda>_. 0))"

text \<open>The chain again: the runner of \<open>a\<close> has started its process and is inside \<^verbatim>\<open>prc.Run\<close>.\<close>

definition first_running :: world where
  "first_running =
     exec chain [Dispatch 0, Runner 0 quiet, Runner 0 quiet, Runner 0 quiet, Runner 0 quiet]
       (init_world chain True (\<lambda>_. 0))"

text \<open>
  The two jobs under the mutex \<open>m\<close>: both are delivered, the runner of \<open>x\<close> takes the mutex,
  the runner of \<open>y\<close> arrives at \<^verbatim>\<open>mutex.Lock()\<close>, and then an interrupt makes the root context
  done.
\<close>

definition mutex_wait :: world where
  "mutex_wait =
     exec contended [Dispatch 0, Dispatch 0, Runner 0 quiet, Runner 0 quiet, Runner 1 quiet,
       Signal] (init_world contended True (\<lambda>_. 0))"

text \<open>After that the runner of \<open>x\<close> reaches the head of its loop and returns.\<close>

definition mutex_free :: world where
  "mutex_free = exec contended [Runner 0 quiet, Runner 0 quiet] mutex_wait"

text \<open>
  The two jobs under the semaphore \<open>s\<close> of capacity 1: the runner of \<open>x\<close> takes the permit,
  the runner of \<open>y\<close> arrives at \<^verbatim>\<open>semaphore.Acquire\<close>, and then the root context is done.
\<close>

definition semaphore_wait :: world where
  "semaphore_wait =
     exec limited [Dispatch 0, Dispatch 0, Runner 0 quiet, Runner 0 quiet, Runner 0 quiet,
       Runner 1 quiet, Runner 1 quiet, Signal]
       (init_world limited True ((\<lambda>_. 0)(''s'' := 1)))"



text \<open>The chain up to the point where \<open>a\<close> has succeeded and \<open>b\<close> is being sent.\<close>

definition a_done :: world where
  "a_done = exec chain [Runner 0 quiet] first_running"

section \<open>Properties\<close>

lemmas example_defs = job_def service_def status_of_def quiet_def chain_def mixed_def
  contended_def watched_def limited_def good_pod_def

lemmas graph_defs = GetDownstream_def GetLeaves_def Get_task_def All_tasks_def Any_tasks_def

lemmas helper_defs = process_done_def upd_runner_def set_pc_def upd_status_def set_reason_def
  runner_exit_def handleCrash_def release_def maybeStartDownstream_def upd_watcher_def
  mutex_Lock_def mutex_Unlock_def semaphore_Acquire_def semaphore_Release_def

lemmas step_defs = step_def runner_step_def preempt_step_def lock_step_def acquire_step_def
  restart_decision_def post_run_def loop_step_def tail_step_def ready_step_def dispatch_def
  watch_event_def watch_done_def watch_crash_def timer_fire_def check_step_def
  shutdown_step_def init_world_def

lemmas eval_defs = step_defs helper_defs example_defs graph_defs Let_def

subsection \<open>Downstream release\<close>

lemma Get_task_in_graph: "u \<in> set (map Name ts) \<Longrightarrow> \<exists>t. Get_task ts u = Some t"
  by (cases "Get_task ts u") (auto simp: Get_task_def find_None_iff)

text \<open>
  When the table has records for tasks of the graph only, the lookup of an upstream never
  fails, and the inner loop computes the conjunction of \<open>upstream_ok\<close> over the dependencies.
\<close>

lemma fulfilled_loop_in_graph:
  "dom st \<subseteq> set (map Name ts) \<Longrightarrow>
   fulfilled_loop ts st f us = Inr (f \<and> list_all (upstream_ok ts st) us)"
proof (induction us arbitrary: f)
  case Nil
  show ?case by simp
next
  case (Cons u us)
  show ?case
  proof (cases "st u")
    case None
    with Cons show ?thesis by (simp add: upstream_ok_def)
  next
    case (Some status)
    with Cons.prems have "u \<in> set (map Name ts)" by blast
    then obtain t where t: "Get_task ts u = Some t"
      using Get_task_in_graph by blast
    from Some t Cons show ?thesis by (simp add: upstream_ok_def)
  qed
qed

lemma release_loop_in_graph:
  "dom st \<subseteq> set (map Name ts) \<Longrightarrow>
   release_loop ts st ds =
     (filter (\<lambda>d. list_all (upstream_ok ts st) (Dependencies d)) ds, None)"
  by (induction ds) (simp_all add: fulfilled_loop_in_graph)

text \<open>
  C1, as the code has it. While the root context is not done, and with a status table that
  has records for tasks of the graph only (as the table built at start-up has), the release
  step for \<open>name\<close> does not panic, and it sends a task \<open>d\<close> of \<open>downstream(name)\<close> on the
  work channel if and only if every upstream of \<open>d\<close> has a status record whose reason is
  \<open>success\<close>, or whose reason is \<open>running\<close> while the upstream is a background task; if an
  upstream has no status record, \<open>d\<close> is not sent.
\<close>

theorem release_enqueues_iff:
  assumes "\<not> ctx_done" and "dom st \<subseteq> set (map Name ts)"
    and "d \<in> set (GetDownstream ts name)"
  shows "snd (maybeStartDownstream ctx_done ts st name) = None \<and>
    (d \<in> set (fst (maybeStartDownstream ctx_done ts st name)) \<longleftrightarrow>
      (\<forall>u \<in> set (Dependencies d). \<exists>status. st u = Some status \<and>
         (reason status = ''success'' \<or>
          reason status = ''running'' \<and> (\<exists>t. Get_task ts u = Some t \<and> IsBackground t)))) \<and>
    ((\<exists>u \<in> set (Dependencies d). st u = None) \<longrightarrow>
       d \<notin> set (fst (maybeStartDownstream ctx_done ts st name)))"
proof -
  have ok: "upstream_ok ts st u \<longleftrightarrow> (\<exists>status. st u = Some status \<and>
         (reason status = ''success'' \<or>
          reason status = ''running'' \<and> (\<exists>t. Get_task ts u = Some t \<and> IsBackground t)))" for u
    by (auto simp: upstream_ok_def split: option.splits)
  have m: "maybeStartDownstream ctx_done ts st name =
     (filter (\<lambda>d. list_all (upstream_ok ts st) (Dependencies d)) (GetDownstream ts name), None)"
    using assms(1,2) by (simp add: maybeStartDownstream_def release_loop_in_graph)
  have none: "\<not> upstream_ok ts st u" if "st u = None" for u
    using that by (simp add: upstream_ok_def)
  have a: "snd (maybeStartDownstream ctx_done ts st name) = None"
    by (simp add: m)
  have b: "d \<in> set (fst (maybeStartDownstream ctx_done ts st name)) \<longleftrightarrow>
      (\<forall>u \<in> set (Dependencies d). \<exists>status. st u = Some status \<and>
         (reason status = ''success'' \<or>
          reason status = ''running'' \<and> (\<exists>t. Get_task ts u = Some t \<and> IsBackground t)))"
    using assms(3) by (simp add: m list_all_iff ok)
  have c: "(\<exists>u \<in> set (Dependencies d). st u = None) \<longrightarrow>
       d \<notin> set (fst (maybeStartDownstream ctx_done ts st name))"
    using none by (auto simp: m list_all_iff)
  from a b c show ?thesis by blast
qed

text \<open>
  The theorem at the chain \<open>a\<close>, \<open>b\<close>: \<open>b\<close> is sent when \<open>a\<close> has succeeded, and is not sent
  when \<open>a\<close> is in error or has no record.
\<close>

theorem release_enqueues_iff_witness:
  "job ''b'' [''a''] \<in>
     set (fst (maybeStartDownstream False chain [''a'' \<mapsto> status_of ''success''] ''a'')) \<and>
   job ''b'' [''a''] \<notin>
     set (fst (maybeStartDownstream False chain [''a'' \<mapsto> status_of ''error''] ''a'')) \<and>
   job ''b'' [''a''] \<notin> set (fst (maybeStartDownstream False chain Map.empty ''a''))"
proof -
  have d: "job ''b'' [''a''] \<in> set (GetDownstream chain ''a'')"
    by (simp add: example_defs graph_defs)
  have n: "\<not> False" by simp
  have s1: "dom [''a'' \<mapsto> status_of ''success''] \<subseteq> set (map Name chain)"
    by (simp add: example_defs)
  have s2: "dom [''a'' \<mapsto> status_of ''error''] \<subseteq> set (map Name chain)"
    by (simp add: example_defs)
  have s3: "dom (Map.empty :: statuses) \<subseteq> set (map Name chain)"
    by simp
  have 1: "job ''b'' [''a''] \<in>
      set (fst (maybeStartDownstream False chain [''a'' \<mapsto> status_of ''success''] ''a''))"
    using release_enqueues_iff [OF n s1 d] by (simp add: example_defs)
  have 2: "job ''b'' [''a''] \<notin>
      set (fst (maybeStartDownstream False chain [''a'' \<mapsto> status_of ''error''] ''a''))"
    using release_enqueues_iff [OF n s2 d] by (simp add: example_defs)
  have 3: "job ''b'' [''a''] \<notin> set (fst (maybeStartDownstream False chain Map.empty ''a''))"
    using release_enqueues_iff [OF n s3 d] by (simp add: example_defs)
  from 1 2 3 show ?thesis by blast
qed

text \<open>
  C1 as it is written does not hold when the root context is done: \<open>b\<close> is downstream of
  \<open>a\<close>, its only upstream \<open>a\<close> has succeeded, and \<open>b\<close> is not sent.
\<close>

theorem release_ignores_fulfilled_after_cancel:
  "job ''b'' [''a''] \<in> set (GetDownstream chain ''a'') \<and>
   list_all (upstream_ok chain [''a'' \<mapsto> status_of ''success''])
     (Dependencies (job ''b'' [''a''])) \<and>
   job ''b'' [''a''] \<notin>
     set (fst (maybeStartDownstream True chain [''a'' \<mapsto> status_of ''success''] ''a''))"
  by (simp add: example_defs graph_defs upstream_ok_def maybeStartDownstream_def)

text \<open>
  C9. Once the root context is done the release step sends nothing, for every task name
  and every status table; on the shared state it changes nothing.
\<close>

theorem release_after_cancel_is_noop:
  "maybeStartDownstream True ts st name = ([], None) \<and>
   release ts name (w\<lparr>root_done := True\<rparr>) = (w\<lparr>root_done := True\<rparr>, None)"
  by (simp add: maybeStartDownstream_def release_def)

subsection \<open>The termination predicates\<close>

lemma allComplete_iff:
  "allComplete ts st \<longleftrightarrow>
     (\<forall>t \<in> set ts. \<not> IsBackground t \<and>
        (\<exists>status. st (Name t) = Some status \<and>
           (reason status = ''success'' \<or> reason status = ''error'')))"
  by (auto simp: allComplete_def All_tasks_def list_all_iff split: option.splits)

lemma anyError_iff:
  "anyError ts st \<longleftrightarrow>
     (\<exists>t \<in> set ts. GetRestartPolicy t = ''Never'' \<and>
        (\<exists>status. st (Name t) = Some status \<and> reason status = ''error''))"
  by (auto simp: anyError_def Any_tasks_def list_ex_iff split: option.splits)

text \<open>
  C2, as the code has it. A round of the termination check makes the root context done
  exactly when \<open>allComplete\<close> or \<open>anyError\<close> holds. \<open>allComplete\<close> holds exactly when every
  task of the graph is not a background task and has a status record whose reason is
  \<open>success\<close> or \<open>error\<close>; so for a graph that contains a background task \<open>allComplete\<close> does
  not hold, whatever the other tasks have reached.
\<close>

theorem termination_check_trips_iff:
  "(root_done (check_step ts w) \<longleftrightarrow>
      root_done w \<or> allComplete ts (statuses w) \<or> anyError ts (statuses w)) \<and>
   (allComplete ts st \<longleftrightarrow>
      (\<forall>t \<in> set ts. \<not> IsBackground t \<and>
         (\<exists>status. st (Name t) = Some status \<and>
            (reason status = ''success'' \<or> reason status = ''error'')))) \<and>
   (\<forall>t \<in> set ts. IsBackground t \<longrightarrow> \<not> allComplete ts st)"
proof -
  have a: "root_done (check_step ts w) \<longleftrightarrow>
      root_done w \<or> allComplete ts (statuses w) \<or> anyError ts (statuses w)"
    by (simp add: check_step_def termination_check_def)
  have c: "\<forall>t \<in> set ts. IsBackground t \<longrightarrow> \<not> allComplete ts st"
    by (auto simp: allComplete_iff)
  from a allComplete_iff c show ?thesis by blast
qed

text \<open>
  The theorem at a graph of one job that has succeeded (the check trips the root context)
  and at the service next to the job (\<open>allComplete\<close> does not hold).
\<close>

theorem termination_check_trips_iff_witness:
  "root_done (check_step [job ''build'' []]
     ((init_world [job ''build'' []] True (\<lambda>_. 0))
        \<lparr>statuses := [''build'' \<mapsto> status_of ''success'']\<rparr>)) \<and>
   \<not> allComplete mixed
       [''db'' \<mapsto> status_of ''running'', ''build'' \<mapsto> status_of ''success'']"
proof -
  have 1: "root_done (check_step [job ''build'' []]
     ((init_world [job ''build'' []] True (\<lambda>_. 0))
        \<lparr>statuses := [''build'' \<mapsto> status_of ''success'']\<rparr>))"
    using termination_check_trips_iff [of "[job ''build'' []]"
       "(init_world [job ''build'' []] True (\<lambda>_. 0))
          \<lparr>statuses := [''build'' \<mapsto> status_of ''success'']\<rparr>"
       "[''build'' \<mapsto> status_of ''success'']"]
    by (simp add: example_defs init_world_def)
  have 2: "\<not> allComplete mixed
      [''db'' \<mapsto> status_of ''running'', ''build'' \<mapsto> status_of ''success'']"
    using termination_check_trips_iff [of mixed w
       "[''db'' \<mapsto> status_of ''running'', ''build'' \<mapsto> status_of ''success'']"]
    by (simp add: example_defs)
  from 1 2 show ?thesis by blast
qed

text \<open>
  C2 as it is written does not hold: with the service \<open>db\<close> running and the only job
  \<open>build\<close> succeeded, every task that is not a background task has reached \<open>success\<close>, and
  the check does not trip the root context.
\<close>

theorem background_task_blocks_allComplete:
  "spec_allComplete mixed
     [''db'' \<mapsto> status_of ''running'', ''build'' \<mapsto> status_of ''success''] \<and>
   \<not> termination_check mixed
     [''db'' \<mapsto> status_of ''running'', ''build'' \<mapsto> status_of ''success''] \<and>
   \<not> root_done (check_step mixed ((init_world mixed True (\<lambda>_. 0))
        \<lparr>statuses := [''db'' \<mapsto> status_of ''running'', ''build'' \<mapsto> status_of ''success'']\<rparr>))"
  by (simp add: example_defs spec_allComplete_def termination_check_def allComplete_def
      anyError_def All_tasks_def Any_tasks_def check_step_def init_world_def)

subsection \<open>The result of the run\<close>





subsection \<open>The runner\<close>

text \<open>
  C3: evaluating the code where the claim fails. In the chain, \<^verbatim>\<open>Skip()\<close> returns true for
  \<open>a\<close>. After the skip branch the runner of \<open>a\<close> has not returned: it stands at the tail of
  the loop, no process was started, and \<open>b\<close> is being sent. When \<open>b\<close> has been received, the
  runner of \<open>a\<close> sleeps for one second and is back at the head of the loop; \<^verbatim>\<open>Skip()\<close>
  returns true again, \<open>b\<close> is sent a second time and is delivered a second time, so that two
  runners of \<open>b\<close> have been started.
\<close>

theorem skip_branch_runs_again:
  "map rpc (runners skipped_run) = [LoopTail] \<and>
   map Name (work skipped_run) = [''b''] \<and>
   trace skipped_run = [] \<and>
   map rpc (runners (exec chain [Dispatch 0, Runner 0 quiet] skipped_run)) =
     [LoopHead, Preempt] \<and>
   trace (exec chain [Dispatch 0, Runner 0 quiet] skipped_run) = [Slept 0 1] \<and>
   map Name (work (exec chain [Dispatch 0, Runner 0 quiet, Runner 0 (quiet\<lparr>skip := True\<rparr>)]
     skipped_run)) = [''b''] \<and>
   map (\<lambda>r. (Name (rtask r), rpc r))
     (runners (exec chain [Dispatch 0, Runner 0 quiet, Runner 0 (quiet\<lparr>skip := True\<rparr>),
        Dispatch 0] skipped_run)) =
     [(''a'', LoopTail), (''b'', Preempt), (''b'', Preempt)]"
  by (simp add: skipped_run_def eval_defs defaultBackoff_def)

text \<open>
  C4, as the code has it. Let the root context be done. A runner that waits at
  \<^verbatim>\<open>semaphore.Acquire\<close> with no permit free returns, and starts no process. A runner that
  waits at \<^verbatim>\<open>mutex.Lock()\<close> while the mutex is held stays there: its step changes nothing.
  Once the mutex is free the runner takes it and goes on; and a runner that reaches the
  head of the run loop returns there, and starts no process.
\<close>

theorem gate_cancellation:
  assumes "i < length (runners w)" and "root_done w"
  shows
    "(rpc (runners w ! i) = AcquireSemaphore \<and> Semaphore (rtask (runners w ! i)) \<noteq> [] \<and>
      permits w (Semaphore (rtask (runners w ! i))) = 0 \<longrightarrow>
        rpc (runners (runner_step ts ob i w) ! i) = Exited \<and>
        trace (runner_step ts ob i w) = trace w) \<and>
     (rpc (runners w ! i) = LockMutex \<and> Mutex (rtask (runners w ! i)) \<in> set (locked w) \<and>
      Mutex (rtask (runners w ! i)) \<noteq> [] \<longrightarrow>
        runner_step ts ob i w = w) \<and>
     (rpc (runners w ! i) = LockMutex \<and> Mutex (rtask (runners w ! i)) \<notin> set (locked w) \<and>
      Mutex (rtask (runners w ! i)) \<noteq> [] \<longrightarrow>
        rpc (runners (runner_step ts ob i w) ! i) = AcquireSemaphore \<and>
        Mutex (rtask (runners w ! i)) \<in> set (locked (runner_step ts ob i w))) \<and>
     (rpc (runners w ! i) = LoopHead \<longrightarrow>
        rpc (runners (runner_step ts ob i w) ! i) = Exited \<and>
        trace (runner_step ts ob i w) = trace w)"
  using assms
  by (auto simp: runner_step_def acquire_step_def lock_step_def loop_step_def
      process_done_def runner_exit_def upd_runner_def set_pc_def Let_def
      mutex_Lock_def mutex_Unlock_def semaphore_Acquire_def semaphore_Release_def)

text \<open>
  The theorem at the two jobs under one semaphore and at the two jobs under one mutex,
  each with the root context done while the second runner waits.
\<close>

theorem gate_cancellation_witness:
  "rpc (runners (runner_step limited quiet 1 semaphore_wait) ! 1) = Exited \<and>
   trace (runner_step limited quiet 1 semaphore_wait) = [] \<and>
   runner_step contended quiet 1 mutex_wait = mutex_wait \<and>
   rpc (runners (runner_step contended quiet 1 mutex_free) ! 1) = AcquireSemaphore \<and>
   rpc (runners (runner_step contended quiet 0 mutex_wait) ! 0) = LoopHead \<and>
   rpc (runners (runner_step contended quiet 0 (runner_step contended quiet 0 mutex_wait)) ! 0) =
     Exited"
proof -
  have s: "1 < length (runners semaphore_wait)" "root_done semaphore_wait"
    "rpc (runners semaphore_wait ! 1) = AcquireSemaphore"
    "Semaphore (rtask (runners semaphore_wait ! 1)) = ''s''"
    "permits semaphore_wait ''s'' = 0" "trace semaphore_wait = []"
    by (simp_all add: semaphore_wait_def eval_defs)
  have m: "1 < length (runners mutex_wait)" "root_done mutex_wait"
    "rpc (runners mutex_wait ! 1) = LockMutex"
    "Mutex (rtask (runners mutex_wait ! 1)) = ''m''" "locked mutex_wait = [''m'']"
    by (simp_all add: mutex_wait_def eval_defs)
  have f: "1 < length (runners mutex_free)" "root_done mutex_free"
    "rpc (runners mutex_free ! 1) = LockMutex"
    "Mutex (rtask (runners mutex_free ! 1)) = ''m''" "locked mutex_free = []"
    by (simp_all add: mutex_free_def mutex_wait_def eval_defs)
  have h: "0 < length (runners (runner_step contended quiet 0 mutex_wait))"
    "root_done (runner_step contended quiet 0 mutex_wait)"
    "rpc (runners (runner_step contended quiet 0 mutex_wait) ! 0) = LoopHead"
    by (simp_all add: mutex_wait_def eval_defs)
  have 1: "rpc (runners (runner_step limited quiet 1 semaphore_wait) ! 1) = Exited \<and>
      trace (runner_step limited quiet 1 semaphore_wait) = []"
    using gate_cancellation [OF s(1,2), of limited quiet] s(3-) by simp
  have 2: "runner_step contended quiet 1 mutex_wait = mutex_wait"
    using gate_cancellation [OF m(1,2), of contended quiet] m(3-) by simp
  have 3: "rpc (runners (runner_step contended quiet 1 mutex_free) ! 1) = AcquireSemaphore"
    using gate_cancellation [OF f(1,2), of contended quiet] f(3-) by simp
  have 4: "rpc (runners (runner_step contended quiet 0
        (runner_step contended quiet 0 mutex_wait)) ! 0) = Exited"
    using gate_cancellation [OF h(1,2), of contended quiet] h(3) by simp
  from 1 2 3 4 h(3) show ?thesis by blast
qed

text \<open>
  C4 as it is written does not hold for a mutex: the runner of \<open>y\<close> declares the mutex \<open>m\<close>
  and waits for it when the root context becomes done; its acquisition does not fail and it
  does not return, it goes on waiting. When the holder has returned, the runner of \<open>y\<close>
  takes the mutex: the acquisition succeeds after the cancellation.
\<close>

theorem mutex_wait_ignores_cancellation:
  "Mutex (rtask (runners mutex_wait ! 1)) = ''m'' \<and>
   rpc (runners mutex_wait ! 1) = LockMutex \<and>
   root_done mutex_wait \<and>
   rpc (runners (step contended (Runner 1 quiet) mutex_wait) ! 1) = LockMutex \<and>
   rpc (runners (step contended (Runner 1 quiet) mutex_free) ! 1) = AcquireSemaphore \<and>
   unlock_deferred (runners (step contended (Runner 1 quiet) mutex_free) ! 1) \<and>
   locked (step contended (Runner 1 quiet) mutex_free) = [''m'']"
  by (simp add: mutex_free_def mutex_wait_def eval_defs)

text \<open>
  C5. When \<^verbatim>\<open>prc.Run\<close> returns without error, the step of the runner sets the reason of
  its task to \<open>success\<close> and the backoff to the default, calls the release step for its task
  on the table so updated (what that step sends is appended to the pending sends), and,
  if the task is not a restart target, the runner returns.
\<close>

theorem clean_run_classification:
  assumes i: "i < length (runners w)"
    and pc: "rpc (runners w ! i) = Running"
    and ok: "run_err ob = None"
    and st: "statuses w (Name (rtask (runners w ! i))) = Some status"
  shows "statuses (runner_step ts ob i w) (Name (rtask (runners w ! i))) =
           Some (status\<lparr>reason := ''success'', backoff := defaultBackoff\<rparr>) \<and>
         work (runner_step ts ob i w) =
           work w @ fst (maybeStartDownstream (root_done w) ts
                           (statuses (runner_step ts ob i w)) (Name (rtask (runners w ! i)))) \<and>
         (\<not> IsRestart (rtask (runners w ! i)) \<longrightarrow>
            rpc (runners (runner_step ts ob i w) ! i) = Exited)"
  using assms
  by (auto simp: runner_step_def post_run_def restart_decision_def upd_status_def
      set_reason_def release_def runner_exit_def handleCrash_def upd_runner_def set_pc_def
      mutex_Unlock_def semaphore_Release_def Let_def split: prod.splits option.splits)

text \<open>
  The theorem at the chain, when the process of \<open>a\<close> ends without error: \<open>a\<close> has succeeded,
  \<open>b\<close> is sent, and the runner of \<open>a\<close> has returned.
\<close>

theorem clean_run_classification_witness:
  "map_option reason (statuses (runner_step chain quiet 0 first_running) ''a'') =
     Some ''success'' \<and>
   map_option backoff (statuses (runner_step chain quiet 0 first_running) ''a'') =
     Some defaultBackoff \<and>
   work (runner_step chain quiet 0 first_running) = [job ''b'' [''a'']] \<and>
   rpc (runners (runner_step chain quiet 0 first_running) ! 0) = Exited"
proof -
  have 1: "0 < length (runners first_running)"
    by (simp add: first_running_def eval_defs)
  have 2: "rpc (runners first_running ! 0) = Running"
    by (simp add: first_running_def eval_defs)
  have 3: "run_err quiet = None"
    by (simp add: quiet_def)
  have 4: "statuses first_running (Name (rtask (runners first_running ! 0))) =
      Some (status_of ''running'')"
    by (simp add: first_running_def eval_defs)
  have 5: "rtask (runners first_running ! 0) = job ''a'' []"
    by (simp add: first_running_def eval_defs)
  have 6: "work first_running = []" "\<not> root_done first_running"
    by (simp_all add: first_running_def eval_defs)
  have 7: "fst (maybeStartDownstream False chain
      (statuses (runner_step chain quiet 0 first_running)) ''a'') = [job ''b'' [''a'']]"
    by (simp add: first_running_def eval_defs)
  show ?thesis
    using clean_run_classification [OF 1 2 3 4, of chain] 5 6 7
    by (simp add: example_defs)
qed




subsection \<open>The watcher\<close>



subsection \<open>The dispatch loop never meets a task without a status record\<close>

text \<open>
  The table built at start-up has a record for every task of the graph, and for those
  only where it started empty.
\<close>

lemma init_statuses_dom:
  "init_statuses ts st n \<noteq> None \<longleftrightarrow> n \<in> set (map Name ts) \<or> st n \<noteq> None"
  by (induction ts arbitrary: st) auto

lemma release_loop_sent: "set (fst (release_loop ts st ds)) \<subseteq> set ds"
  by (induction ds) (auto split: sum.splits prod.splits)

lemma maybeStartDownstream_sent: "set (fst (maybeStartDownstream c ts st n)) \<subseteq> set ts"
  using release_loop_sent [of ts st "GetDownstream ts n"]
  by (auto simp: maybeStartDownstream_def GetDownstream_def)

lemma list_all_update:
  "list_all P xs \<Longrightarrow> (\<And>x. P x \<Longrightarrow> P (f x)) \<Longrightarrow> list_all P (xs[i := f (xs ! i)])"
proof (cases "i < length xs")
  case True
  assume a: "list_all P xs" and f: "\<And>x. P x \<Longrightarrow> P (f x)"
  from a True have "P (xs ! i)" by (simp add: list_all_length)
  then have "P (f (xs ! i))" by (rule f)
  with a show ?thesis
    using set_update_subset_insert [of xs i "f (xs ! i)"] by (auto simp: list_all_iff)
next
  case False
  assume "list_all P xs"
  with False show ?thesis by (simp add: list_update_beyond not_less)
qed

lemma inv_frame [simp]:
  "inv ts (w\<lparr>stop := a\<rparr>) = inv ts w"
  "inv ts (w\<lparr>cancelled := b\<rparr>) = inv ts w"
  "inv ts (w\<lparr>root_done := c\<rparr>) = inv ts w"
  "inv ts (w\<lparr>terminating := d\<rparr>) = inv ts w"
  "inv ts (w\<lparr>closed := e\<rparr>) = inv ts w"
  "inv ts (w\<lparr>locked := f\<rparr>) = inv ts w"
  "inv ts (w\<lparr>permits := g\<rparr>) = inv ts w"
  "inv ts (w\<lparr>now := h\<rparr>) = inv ts w"
  "inv ts (w\<lparr>trace := k\<rparr>) = inv ts w"
  "inv ts (w\<lparr>panics := l\<rparr>) = inv ts w"
  by (simp_all add: inv_def)

lemma inv_upd_runner:
  "inv ts w \<Longrightarrow> (\<And>r. rtask (f r) = rtask r) \<Longrightarrow> inv ts (upd_runner i f w)"
  by (simp add: inv_def upd_runner_def list_all_update)

lemma inv_upd_watcher:
  "inv ts w \<Longrightarrow> (\<And>x. wtask (f x) = wtask x) \<Longrightarrow> inv ts (upd_watcher j f w)"
  by (simp add: inv_def upd_watcher_def list_all_update)

lemma inv_set_pc: "inv ts w \<Longrightarrow> inv ts (set_pc i c w)"
  by (simp add: set_pc_def inv_upd_runner)

lemma inv_upd_status: "inv ts w \<Longrightarrow> inv ts (upd_status n f w)"
  by (auto simp: inv_def upd_status_def list_all_iff split: option.splits)

lemma inv_set_reason: "inv ts w \<Longrightarrow> inv ts (set_reason n r w)"
  by (simp add: set_reason_def inv_upd_status)

lemma inv_runner_exit: "inv ts w \<Longrightarrow> inv ts (runner_exit i w)"
  by (simp add: runner_exit_def Let_def inv_upd_runner mutex_Unlock_def semaphore_Release_def)

lemma inv_handleCrash: "inv ts w \<Longrightarrow> inv ts (handleCrash p w)"
  by (simp add: handleCrash_def)

lemma inv_release: "release ts n w = (w1, p) \<Longrightarrow> inv ts w \<Longrightarrow> inv ts w1"
  using maybeStartDownstream_sent [of "root_done w" ts "statuses w" n]
  by (auto simp: release_def inv_def list_all_iff split: prod.splits)

lemmas inv_helpers = inv_set_pc inv_upd_status inv_set_reason inv_runner_exit inv_handleCrash
  inv_upd_runner inv_upd_watcher

lemma inv_preempt_step: "inv ts w \<Longrightarrow> inv ts (preempt_step i w)"
  by (simp add: preempt_step_def Let_def inv_helpers split: option.splits)

lemma inv_lock_step: "inv ts w \<Longrightarrow> inv ts (lock_step i w)"
  by (auto simp: lock_step_def Let_def mutex_Lock_def inv_helpers split: option.splits)

lemma inv_acquire_step: "inv ts w \<Longrightarrow> inv ts (acquire_step i w)"
  by (auto simp: acquire_step_def Let_def semaphore_Acquire_def inv_helpers
      split: acquired.splits if_splits)

lemma inv_restart_decision: "inv ts w \<Longrightarrow> inv ts (restart_decision i w)"
  by (simp add: restart_decision_def inv_helpers)

lemma inv_post_run: "inv ts w \<Longrightarrow> inv ts (post_run ts e i w)"
  by (auto simp: post_run_def Let_def inv_helpers inv_restart_decision
      split: option.splits err.splits prod.splits
      dest!: inv_release [where ts = ts])

lemma inv_loop_step: "inv ts w \<Longrightarrow> inv ts (loop_step ts ob i w)"
  by (auto simp: loop_step_def Let_def inv_helpers inv_post_run
      split: option.splits prod.splits
      dest!: inv_release [where ts = ts])

lemma inv_tail_step: "inv ts w \<Longrightarrow> inv ts (tail_step i w)"
  by (simp add: tail_step_def Let_def inv_helpers split: option.splits)

lemma inv_runner_step: "inv ts w \<Longrightarrow> inv ts (runner_step ts ob i w)"
  by (simp add: runner_step_def inv_preempt_step inv_lock_step inv_acquire_step
      inv_loop_step inv_post_run inv_tail_step split: pc.splits)

lemma inv_ready_step: "inv ts w \<Longrightarrow> inv ts (ready_step ts b i w)"
  by (auto simp: ready_step_def Let_def inv_helpers split: option.splits prod.splits
      dest!: inv_release [where ts = ts])

lemma inv_dispatch: "inv ts w \<Longrightarrow> inv ts (dispatch k w)"
proof -
  assume a: "inv ts w"
  show ?thesis
  proof (cases "closed w \<or> length (work w) \<le> k")
    case True
    with a show ?thesis by (simp add: dispatch_def)
  next
    case False
    then have k: "k < length (work w)" by simp
    with a have t: "work w ! k \<in> set ts"
      by (simp add: inv_def list_all_length)
    with a obtain status where s: "statuses w (Name (work w ! k)) = Some status"
      by (auto simp: inv_def list_all_iff)
    have rest: "set (take k (work w) @ drop (Suc k) (work w)) \<subseteq> set (work w)"
      using set_take_subset [of k "work w"] set_drop_subset [of "Suc k" "work w"] by auto
    from a rest have w: "list_all (\<lambda>t. t \<in> set ts) (take k (work w) @ drop (Suc k) (work w))"
      by (auto simp: inv_def list_all_iff)
    from a False s t w show ?thesis
      by (simp add: dispatch_def Let_def inv_def)
  qed
qed

lemma inv_watch_event: "inv ts w \<Longrightarrow> inv ts (watch_event op j w)"
  by (simp add: watch_event_def inv_helpers)

lemma inv_watch_done: "inv ts w \<Longrightarrow> inv ts (watch_done j w)"
  by (simp add: watch_done_def inv_helpers)

lemma inv_watch_crash: "inv ts w \<Longrightarrow> inv ts (watch_crash j w)"
  by (simp add: watch_crash_def inv_helpers)

lemma inv_timer_fire: "inv ts w \<Longrightarrow> inv ts (timer_fire j w)"
proof -
  assume a: "inv ts w"
  show ?thesis
  proof (cases "length (watchers w) \<le> j")
    case True
    with a show ?thesis by (simp add: timer_fire_def)
  next
    case False
    with a have t: "wtask (watchers w ! j) \<in> set ts"
      by (simp add: inv_def list_all_length)
    have u: "inv ts (upd_watcher j (\<lambda>x. x\<lparr>deadline := None\<rparr>) w)"
      using a by (simp add: inv_helpers)
    from a t u False show ?thesis
      by (simp add: timer_fire_def inv_def split: option.splits)
  qed
qed

lemma inv_step: "inv ts w \<Longrightarrow> inv ts (step ts a w)"
  by (cases a)
    (simp_all add: step_def inv_dispatch inv_runner_step inv_ready_step inv_watch_event
      inv_watch_done inv_watch_crash inv_timer_fire check_step_def shutdown_step_def)

lemma inv_exec: "inv ts w \<Longrightarrow> inv ts (exec ts sched w)"
  by (induction sched arbitrary: w) (simp_all add: inv_step)

lemma inv_init_world: "inv ts (init_world ts nw sem)"
proof -
  have "init_statuses ts Map.empty (Name t) \<noteq> None" if "t \<in> set ts" for t
    using that init_statuses_dom [of ts Map.empty "Name t"] by auto
  then show ?thesis
    by (simp add: inv_def init_world_def GetLeaves_def list_all_iff)
qed

text \<open>
  C10. Whatever the schedule, the main goroutine has not panicked, every task that is
  being sent on the work channel is a task of the graph and has a status record, and the
  next turn of the dispatch loop does not panic either, whichever pending send it
  receives. The sends come from the seeding of the leaves, from the release step and from
  the timers of the watchers.
\<close>

theorem dispatch_never_panics:
  "main_panic (exec ts sched (init_world ts nw sem)) = None \<and>
   (\<forall>t \<in> set (work (exec ts sched (init_world ts nw sem))).
      t \<in> set ts \<and> statuses (exec ts sched (init_world ts nw sem)) (Name t) \<noteq> None) \<and>
   main_panic (dispatch k (exec ts sched (init_world ts nw sem))) = None"
proof -
  let ?w = "exec ts sched (init_world ts nw sem)"
  have i: "inv ts ?w"
    by (simp add: inv_exec inv_init_world)
  then have d: "inv ts (dispatch k ?w)"
    by (rule inv_dispatch)
  from i d show ?thesis
    by (auto simp: inv_def list_all_iff)
qed

text \<open>
  The theorem at the chain when \<open>a\<close> has succeeded: \<open>b\<close> is being sent, it has its record,
  and its delivery does not panic.
\<close>

theorem dispatch_never_panics_witness:
  "main_panic a_done = None \<and>
   work a_done = [job ''b'' [''a'']] \<and>
   statuses a_done ''b'' \<noteq> None \<and>
   main_panic (dispatch 0 a_done) = None"
proof -
  have e: "exec chain [Dispatch 0, Runner 0 quiet, Runner 0 quiet, Runner 0 quiet,
      Runner 0 quiet, Runner 0 quiet] (init_world chain True (\<lambda>_. 0)) = a_done"
    by (simp add: a_done_def first_running_def)
  have w: "work a_done = [job ''b'' [''a'']]"
    by (simp add: a_done_def first_running_def eval_defs)
  note t = dispatch_never_panics [of chain "[Dispatch 0, Runner 0 quiet, Runner 0 quiet,
      Runner 0 quiet, Runner 0 quiet, Runner 0 quiet]" True "\<lambda>_. 0" 0, unfolded e]
  from t w show ?thesis
    by (simp add: job_def)
qed

end
